theory Spec2Isabelle
  imports Main "HOL-Library.Word"
begin

unbundle bit_operations_syntax

section \<open>The mruby bytecode loader of src/load.c\<close>

text \<open>
  The loader receives a bare pointer \<^verbatim>\<open>const uint8_t *ptr\<close> and no length, and it
  never compares a cursor with the end of a buffer. Memory is therefore a function from
  addresses to bytes, a read yields the byte that memory holds at the address, and
  every cursor of the source (\<^verbatim>\<open>ptr\<close>, \<^verbatim>\<open>*pos\<close>, \<^verbatim>\<open>p\<close>) is an integer address.
  Addresses are unbounded: the wrap-around of a pointer at the width of the target is
  not modelled.
\<close>

type_synonym byte = "8 word"
type_synonym memory = "int \<Rightarrow> byte"

definition bytes_at :: "memory \<Rightarrow> int \<Rightarrow> nat \<Rightarrow> byte list" where
  "bytes_at mem p n = map (\<lambda>i. mem (p + int i)) [0..<n]"

text \<open>A memory that holds the given bytes from address 0 on and zero bytes elsewhere,
  used to write down concrete inputs.\<close>

definition memory_of :: "byte list \<Rightarrow> memory" where
  "memory_of bs = (\<lambda>a. if 0 \<le> a \<and> a < int (length bs) then bs ! nat a else 0)"

subsection \<open>Build configuration\<close>

text \<open>
  The preprocessor switches that \<^verbatim>\<open>load.c\<close> tests. \<^verbatim>\<open>vm_config.h\<close> is not among the
  sources, so they are parameters. \<^verbatim>\<open>NDEBUG\<close> is the standard switch that turns
  \<^verbatim>\<open>assert\<close> into a no-op.
\<close>

record build =
  MRBC_USE_STRING :: bool
  MRBC_USE_FLOAT :: bool
  MRBC_INT64 :: bool
  NDEBUG :: bool

subsection \<open>Decoded data\<close>

text \<open>
  An \<^verbatim>\<open>mrbc_object\<close> of the constant pool: the type tag with the member of the union
  that the loader wrote. \<open>Uninitialised\<close> is an object that was allocated and stored
  in the pool without any field being written.
\<close>

datatype mrbc_object =
    Uninitialised
  | MRBC_TT_STRING int
  | MRBC_TT_FIXNUM int
  | MRBC_TT_FLOAT "byte list"

text \<open>An \<^verbatim>\<open>mrbc_irep\<close>, with the fields that load.c writes (the type is declared in
  vm.h, which is not among the sources; the counts hold what \<^verbatim>\<open>bin_to_uint16\<close> reads).
  \<open>code\<close> and \<open>ptr_to_sym\<close> are addresses in the input. A slot of \<open>reps\<close> is a
  pointer to a child and may be \<^verbatim>\<open>NULL\<close> (\<open>None\<close>).\<close>

datatype mrbc_irep = Irep
  (nlocals: nat) (nregs: nat) (rlen: nat) (clen: nat) (ilen: nat)
  (code: int) (plen: nat) (pools: "mrbc_object list") (ptr_to_sym: int)
  (reps: "mrbc_irep option list")

fun set_reps :: "mrbc_irep \<Rightarrow> mrbc_irep option list \<Rightarrow> mrbc_irep" where
  "set_reps (Irep nl nr rl cl il cd pl ps sy _) rs = Irep nl nr rl cl il cd pl ps sy rs"

subsection \<open>State\<close>

text \<open>
  The fields of \<^verbatim>\<open>struct VM\<close> that the loader writes, the allocator and the console.
  \<open>heap\<close> lists the outcomes of the coming allocation requests, \<open>True\<close> for a block
  and \<open>False\<close> for \<^verbatim>\<open>NULL\<close>; an exhausted list means no memory is left.
  \<open>console\<close> collects the source lines printed by the \<^verbatim>\<open>mrbc_raise\<close> macro.
\<close>

record state =
  vm_mrb :: int
  vm_irep :: "mrbc_irep option"
  heap :: "bool list"
  console :: "nat list"

text \<open>A call either returns, or the program is aborted by a failed \<^verbatim>\<open>assert\<close>.\<close>

datatype 'a outcome = Abort state | Return 'a state

text \<open>The macro \<^verbatim>\<open>mrbc_raise\<close> of load.c, line 29: it prints file and line and has no
  other effect.\<close>

definition mrbc_raise :: "nat \<Rightarrow> state \<Rightarrow> state" where
  "mrbc_raise line st = st\<lparr>console := console st @ [line]\<rparr>"

text \<open>Modelled from the spec: the allocation primitive (\<^verbatim>\<open>mrbc_alloc\<close> and
  \<^verbatim>\<open>mrbc_irep_alloc\<close> of alloc.c, which is not among the sources),
  "allocate(size) -> memory or failure-signal".\<close>

definition mrbc_alloc :: "state \<Rightarrow> bool \<times> state" where
  "mrbc_alloc st =
     (case heap st of
        [] \<Rightarrow> (False, st)
      | ok # rest \<Rightarrow> (ok, st\<lparr>heap := rest\<rparr>))"

text \<open>Modelled from the spec: the fixed-width big-endian readers \<^verbatim>\<open>bin_to_uint16\<close>
  and \<^verbatim>\<open>bin_to_uint32\<close> (declared in a header that is not among the sources).\<close>

definition bin_to_uint16 :: "memory \<Rightarrow> int \<Rightarrow> nat" where
  "bin_to_uint16 mem p = unat (mem p) * 256 + unat (mem (p + 1))"

definition bin_to_uint32 :: "memory \<Rightarrow> int \<Rightarrow> 32 word" where
  "bin_to_uint32 mem p =
     word_of_nat (((unat (mem p) * 256 + unat (mem (p + 1))) * 256
                    + unat (mem (p + 2))) * 256 + unat (mem (p + 3)))"

subsection \<open>load_header\<close>

definition load_header :: "memory \<Rightarrow> state \<Rightarrow> int \<Rightarrow> int \<times> int \<times> state" where
  "load_header mem st pos =
     (let p = pos in
      if bytes_at mem p 6 \<noteq> map of_char ''RITE02'' then (- 1, pos, mrbc_raise 65 st)
      else if bytes_at mem (p + 12) 4 \<noteq> map of_char ''MATZ'' then (- 1, pos, mrbc_raise 74 st)
      else if bytes_at mem (p + 16) 4 \<noteq> map of_char ''0000'' then (- 1, pos, mrbc_raise 78 st)
      else (0, pos + 20, st))"

subsection \<open>load_irep_1\<close>

text \<open>\<^verbatim>\<open>enum irep_pool_type\<close>\<close>

definition IREP_TT_STR :: nat where "IREP_TT_STR = 0"
definition IREP_TT_SSTR :: nat where "IREP_TT_SSTR = 2"
definition IREP_TT_INT32 :: nat where "IREP_TT_INT32 = 1"
definition IREP_TT_INT64 :: nat where "IREP_TT_INT64 = 3"
definition IREP_TT_FLOAT :: nat where "IREP_TT_FLOAT = 5"

text \<open>\<^verbatim>\<open>sizeof(mrbc_irep_catch_handler)\<close>: the type is declared in vm.h, which is not
  among the sources; line 147 asserts the value.\<close>

definition sizeof_mrbc_irep_catch_handler :: nat where
  "sizeof_mrbc_irep_catch_handler = 13"

text \<open>The assignment \<^verbatim>\<open>obj->i = value\<close> of a \<^verbatim>\<open>uint32_t\<close>. The type \<^verbatim>\<open>mrbc_int\<close>
  of \<^verbatim>\<open>obj->i\<close> is declared in a header that is not among the sources; it is taken
  as \<^verbatim>\<open>int64_t\<close> when \<^verbatim>\<open>MRBC_INT64\<close> is defined (line 201 stores a \<^verbatim>\<open>uint64_t\<close>
  in it then) and as \<^verbatim>\<open>int32_t\<close> otherwise.\<close>

definition mrbc_int_of_uint32 :: "build \<Rightarrow> 32 word \<Rightarrow> int" where
  "mrbc_int_of_uint32 cfg v = (if MRBC_INT64 cfg then uint v else sint v)"

text \<open>The \<^verbatim>\<open>switch( tt )\<close> of lines 167 to 209, entered with \<open>p\<close> after the type
  byte. It yields the object as written and the cursor after the entry.\<close>

definition load_irep_1_switch ::
  "build \<Rightarrow> memory \<Rightarrow> nat \<Rightarrow> int \<Rightarrow> state \<Rightarrow> (mrbc_object \<times> int) outcome" where
  "load_irep_1_switch cfg mem tt p st =
     (if MRBC_USE_STRING cfg \<and> (tt = IREP_TT_STR \<or> tt = IREP_TT_SSTR) then
        (let pool_data_len = bin_to_uint16 mem p;
             p1 = p + 2
         in Return (MRBC_TT_STRING p1, p1 + (int pool_data_len + 1)) st)
      else if tt = IREP_TT_INT32 then
        (let v = bin_to_uint32 mem p
         in Return (MRBC_TT_FIXNUM (mrbc_int_of_uint32 cfg v), p + 4) st)
      else if MRBC_USE_FLOAT cfg \<and> tt = IREP_TT_FLOAT then
        Return (MRBC_TT_FLOAT (bytes_at mem p 8), p + 8) st
      else if tt = IREP_TT_INT64 then
        (if MRBC_INT64 cfg then
           (let v0 = (ucast (bin_to_uint32 mem p) :: 64 word);
                v1 = push_bit 32 v0;
                v2 = v1 OR ucast (bin_to_uint32 mem (p + 4))
            in Return (MRBC_TT_FIXNUM (sint v2), p + 4 + 4) st)
         else Return (Uninitialised, p + 4 * 2) (mrbc_raise 204 st))
      else
        (if NDEBUG cfg then Return (Uninitialised, p) st else Abort st))"

text \<open>The loop of lines 160 to 212 over the pool entries. \<open>objs\<close> holds the slots
  \<open>pools[0..i-1]\<close> written so far. The result \<open>None\<close> is the \<^verbatim>\<open>return NULL\<close> of
  line 165.\<close>

function load_irep_1_pool ::
  "build \<Rightarrow> memory \<Rightarrow> nat \<Rightarrow> nat \<Rightarrow> mrbc_object list \<Rightarrow> state \<Rightarrow> int
     \<Rightarrow> (mrbc_object list option \<times> int) outcome" where
  "load_irep_1_pool cfg mem n i objs st p =
     (if i < n then
        (let tt = unat (mem p);
             p1 = p + 1;
             (ok, st1) = mrbc_alloc st
         in if \<not> ok then Return (None, p1) (mrbc_raise 164 st1)
            else
              (case load_irep_1_switch cfg mem tt p1 st1 of
                 Abort sa \<Rightarrow> Abort sa
               | Return (obj, p2) st2 \<Rightarrow>
                   load_irep_1_pool cfg mem n (Suc i) (objs @ [obj]) st2 p2))
      else Return (Some objs, p) st)"
  by pat_completeness auto
termination
  by (relation "measure (\<lambda>(cfg, mem, n, i, objs, st, p). n - i)") auto

text \<open>The loop of lines 217 to 220 over the symbols, with \<open>slen\<close> entries left.\<close>

fun load_irep_1_syms :: "memory \<Rightarrow> nat \<Rightarrow> int \<Rightarrow> int" where
  "load_irep_1_syms mem 0 p = p"
| "load_irep_1_syms mem (Suc slen) p =
     (let s = bin_to_uint16 mem p;
          p1 = p + 2
      in load_irep_1_syms mem slen (p1 + (int s + 1)))"

text \<open>The result is the new \<^verbatim>\<open>mrbc_irep\<close> (or \<^verbatim>\<open>NULL\<close>) and the value of \<^verbatim>\<open>*pos\<close>,
  which is written at the very end only.\<close>

definition load_irep_1 ::
  "build \<Rightarrow> memory \<Rightarrow> state \<Rightarrow> int \<Rightarrow> (mrbc_irep option \<times> int) outcome" where
  "load_irep_1 cfg mem st pos =
     (let p = pos + 4;
          (ok, st1) = mrbc_alloc st
      in if \<not> ok then Return (None, pos) (mrbc_raise 124 st1)
         else
          (let nlocals' = bin_to_uint16 mem p;
               nregs' = bin_to_uint16 mem (p + 2);
               rlen' = bin_to_uint16 mem (p + 4);
               clen' = bin_to_uint16 mem (p + 6);
               ilen' = bin_to_uint16 mem (p + 8);
               p = p + 10;
               (ok, st2) = (if rlen' \<noteq> 0 then mrbc_alloc st1 else (True, st1))
           in if \<not> ok then Return (None, pos) (mrbc_raise 139 st2)
              else
               (let code' = p;
                    p = p + int (ilen' + sizeof_mrbc_irep_catch_handler * clen');
                    plen' = bin_to_uint16 mem p;
                    p = p + 2;
                    (ok, st3) = (if plen' \<noteq> 0 then mrbc_alloc st2 else (True, st2))
                in if \<not> ok then Return (None, pos) (mrbc_raise 154 st3)
                   else
                    (case load_irep_1_pool cfg mem plen' 0 [] st3 p of
                       Abort sa \<Rightarrow> Abort sa
                     | Return (None, _) st4 \<Rightarrow> Return (None, pos) st4
                     | Return (Some objs, p) st4 \<Rightarrow>
                        (let ptr_to_sym' = p;
                             slen = bin_to_uint16 mem p;
                             p = load_irep_1_syms mem slen (p + 2)
                         in Return (Some (Irep nlocals' nregs' rlen' clen' ilen' code'
                                            plen' objs ptr_to_sym' []), p) st4)))))"

subsection \<open>load_irep_0\<close>

text \<open>
  The recursion over the tree follows counts read from the input, so it carries fuel:
  the first argument bounds the depth of nested calls, and the result \<open>None\<close> says
  that the bound was reached. \<open>load_irep_0_reps\<close> is the loop of lines 241 to 243
  at index \<open>i\<close>, with \<open>rs\<close> the slots \<open>reps[0..i-1]\<close> written so far.
\<close>

function load_irep_0 ::
    "nat \<Rightarrow> build \<Rightarrow> memory \<Rightarrow> state \<Rightarrow> int \<Rightarrow> (mrbc_irep option \<times> int) outcome option"
  and load_irep_0_reps ::
    "nat \<Rightarrow> build \<Rightarrow> memory \<Rightarrow> nat \<Rightarrow> nat \<Rightarrow> mrbc_irep option list \<Rightarrow> state \<Rightarrow> int
       \<Rightarrow> (mrbc_irep option list \<times> int) outcome option" where
  "load_irep_0 0 cfg mem st pos = None"
| "load_irep_0 (Suc d) cfg mem st pos =
     (case load_irep_1 cfg mem st pos of
        Abort sa \<Rightarrow> Some (Abort sa)
      | Return (None, pos1) st1 \<Rightarrow> Some (Return (None, pos1) st1)
      | Return (Some irep, pos1) st1 \<Rightarrow>
         (case load_irep_0_reps d cfg mem (rlen irep) 0 [] st1 pos1 of
            None \<Rightarrow> None
          | Some (Abort sa) \<Rightarrow> Some (Abort sa)
          | Some (Return (rs, pos2) st2) \<Rightarrow>
              Some (Return (Some (set_reps irep rs), pos2) st2)))"
| "load_irep_0_reps d cfg mem n i rs st pos =
     (if i < n then
        (case load_irep_0 d cfg mem st pos of
           None \<Rightarrow> None
         | Some (Abort sa) \<Rightarrow> Some (Abort sa)
         | Some (Return (r, pos1) st1) \<Rightarrow>
             load_irep_0_reps d cfg mem n (Suc i) (rs @ [r]) st1 pos1)
      else Some (Return (rs, pos) st))"
  by pat_completeness auto
termination
  by (relation "inv_image (less_than <*lex*> less_than)
        (\<lambda>x. case x of
                Inl (d, cfg, mem, st, pos) \<Rightarrow> (2 * d, 0)
              | Inr (d, cfg, mem, n, i, rs, st, pos) \<Rightarrow> (2 * d + 1, n - i))") auto

subsection \<open>load_irep and load_lvar\<close>

text \<open>\<^verbatim>\<open>int section_size = bin_to_uint32(p)\<close>: the field is read into a signed
  32-bit \<^verbatim>\<open>int\<close>.\<close>

definition load_irep ::
  "nat \<Rightarrow> build \<Rightarrow> memory \<Rightarrow> state \<Rightarrow> int \<Rightarrow> (int \<times> int) outcome option" where
  "load_irep d cfg mem st pos =
     (let p = pos + 4;
          section_size = sint (bin_to_uint32 mem p);
          p = p + 4
      in if bytes_at mem p 4 \<noteq> map of_char ''0300'' then
           Some (Return (- 1, pos) (mrbc_raise 271 st))
         else
          (let p = p + 4 in
           case load_irep_0 d cfg mem st p of
             None \<Rightarrow> None
           | Some (Abort sa) \<Rightarrow> Some (Abort sa)
           | Some (Return (r, _) st1) \<Rightarrow>
              (let st2 = st1\<lparr>vm_irep := r\<rparr>
               in if r = None then Some (Return (- 1, pos) st2)
                  else Some (Return (0, pos + section_size) st2))))"

definition load_lvar :: "memory \<Rightarrow> state \<Rightarrow> int \<Rightarrow> int \<times> int \<times> state" where
  "load_lvar mem st pos =
     (let p = pos
      in (0, pos + uint (bin_to_uint32 mem (p + 4)), st))"

subsection \<open>mrbc_load_mrb\<close>

text \<open>
  The \<^verbatim>\<open>while( ret == 0 )\<close> loop of lines 317 to 327. Each iteration takes one unit of
  fuel, and \<open>None\<close> says that the loop has not returned within the fuel given.
  \<open>END_tag\<close> is the string literal \<^verbatim>\<open>"END\0"\<close>.
\<close>

definition END_tag :: "byte list" where
  "END_tag = map of_char ''END'' @ [0]"

fun section_loop :: "nat \<Rightarrow> build \<Rightarrow> memory \<Rightarrow> int \<Rightarrow> state \<Rightarrow> int \<Rightarrow> int outcome option" where
  "section_loop 0 cfg mem ret st ptr = (if ret \<noteq> 0 then Some (Return ret st) else None)"
| "section_loop (Suc n) cfg mem ret st ptr =
     (if ret \<noteq> 0 then Some (Return ret st)
      else if bytes_at mem ptr 4 = map of_char ''IREP'' then
        (case load_irep n cfg mem st ptr of
           None \<Rightarrow> None
         | Some (Abort sa) \<Rightarrow> Some (Abort sa)
         | Some (Return (ret1, ptr1) st1) \<Rightarrow> section_loop n cfg mem ret1 st1 ptr1)
      else if bytes_at mem ptr 4 = map of_char ''LVAR'' then
        (case load_lvar mem st ptr of
           (ret1, ptr1, st1) \<Rightarrow> section_loop n cfg mem ret1 st1 ptr1)
      else if bytes_at mem ptr 4 = END_tag then Some (Return ret st)
      else section_loop n cfg mem ret st ptr)"

definition mrbc_load_mrb :: "nat \<Rightarrow> build \<Rightarrow> memory \<Rightarrow> state \<Rightarrow> int \<Rightarrow> int outcome option" where
  "mrbc_load_mrb fuel cfg mem st ptr =
     (let st0 = st\<lparr>vm_mrb := ptr\<rparr>
      in case load_header mem st0 ptr of
           (ret, ptr1, st1) \<Rightarrow> section_loop fuel cfg mem ret st1 ptr1)"

subsection \<open>Concrete builds, states and inputs\<close>

text \<open>The build with strings and floats and a 32-bit \<^verbatim>\<open>mrbc_int\<close>, with assertions
  compiled in or out, and the build with a 64-bit \<^verbatim>\<open>mrbc_int\<close>.\<close>

definition debug_build :: build where
  "debug_build = \<lparr>MRBC_USE_STRING = True, MRBC_USE_FLOAT = True, MRBC_INT64 = False, NDEBUG = False\<rparr>"

definition release_build :: build where
  "release_build = \<lparr>MRBC_USE_STRING = True, MRBC_USE_FLOAT = True, MRBC_INT64 = False, NDEBUG = True\<rparr>"

definition int64_build :: build where
  "int64_build = \<lparr>MRBC_USE_STRING = True, MRBC_USE_FLOAT = True, MRBC_INT64 = True, NDEBUG = False\<rparr>"

text \<open>A VM that holds no tree, a silent console, and the given allocation outcomes.\<close>

definition start_state :: "bool list \<Rightarrow> state" where
  "start_state h = \<lparr>vm_mrb = 0, vm_irep = None, heap = h, console = []\<rparr>"

definition RITE_header :: "byte list" where
  "RITE_header = map of_char ''RITE0200'' @ [0, 0, 0, 0] @ map of_char ''MATZ0000''"

text \<open>A record with nlocals = 1, nregs = 2, no children, no handlers, no code, an empty
  pool and no symbols: 18 bytes.\<close>

definition leaf_record :: "byte list" where
  "leaf_record = [0, 0, 0, 18,  0, 1,  0, 2,  0, 0,  0, 0,  0, 0,  0, 0,  0, 0]"

text \<open>The same record declaring \<open>k\<close> children.\<close>

definition parent_record :: "byte \<Rightarrow> byte list" where
  "parent_record k = [0, 0, 0, 18,  0, 1,  0, 2,  0, k,  0, 0,  0, 0,  0, 0,  0, 0]"

text \<open>The same record with the given pool of one entry (the type byte and its data).\<close>

definition pool_record :: "byte list \<Rightarrow> byte list" where
  "pool_record entry = [0, 0, 0, 0,  0, 1,  0, 2,  0, 0,  0, 0,  0, 0,  0, 1] @ entry @ [0, 0]"

definition IREP_section :: "byte \<Rightarrow> byte list \<Rightarrow> byte list" where
  "IREP_section sz recs = map of_char ''IREP'' @ [0, 0, 0, sz] @ map of_char ''0300'' @ recs"

definition input_minimal :: "byte list" where
  "input_minimal = RITE_header @ IREP_section 30 leaf_record @ END_tag"

definition input_bad_magic :: "byte list" where
  "input_bad_magic =
     map of_char ''RITE9900'' @ [0, 0, 0, 0] @ map of_char ''MATZ0000''
       @ IREP_section 30 leaf_record @ END_tag"

definition input_bad_revision :: "byte list" where
  "input_bad_revision =
     RITE_header @ map of_char ''IREP'' @ [0, 0, 0, 30] @ map of_char ''0200''
       @ leaf_record @ END_tag"

definition input_unknown_section :: "byte list" where
  "input_unknown_section = RITE_header @ map of_char ''DBG'' @ [0, 0, 0, 0, 8] @ END_tag"


definition input_two_children :: "byte list" where
  "input_two_children =
     RITE_header @ IREP_section 66 (parent_record 2 @ leaf_record @ leaf_record) @ END_tag"

definition input_one_child :: "byte list" where
  "input_one_child =
     RITE_header @ IREP_section 48 (parent_record 1 @ leaf_record) @ END_tag"

definition input_unknown_tt :: "byte list" where
  "input_unknown_tt = RITE_header @ IREP_section 31 (pool_record [127]) @ END_tag"

definition input_int64 :: "byte list" where
  "input_int64 =
     RITE_header @ IREP_section 39 (pool_record [3, 0, 0, 0, 1, 0, 0, 0, 2]) @ END_tag"


definition two_children_tree :: mrbc_irep where
  "two_children_tree = Irep 1 2 2 0 0 46 0 [] 48
     [Some (Irep 1 2 0 0 0 64 0 [] 66 []), Some (Irep 1 2 0 0 0 82 0 [] 84 [])]"

definition loaded :: "mrbc_irep \<Rightarrow> state" where
  "loaded t = \<lparr>vm_mrb = 0, vm_irep = Some t, heap = [], console = []\<rparr>"

text \<open>The value that a call hands back to its caller, when it returns.\<close>

definition returned :: "int outcome option \<Rightarrow> int option" where
  "returned r = (case r of Some (Return v _) \<Rightarrow> Some v | _ \<Rightarrow> None)"

subsection \<open>Notions used in the statements\<close>

text \<open>Every record of a tree has as many child slots as it declares children and as
  many pool entries as it declares.\<close>

fun counts_match :: "mrbc_irep \<Rightarrow> bool" where
  "counts_match (Irep nl nr rl cl il cd pl ps sy rs) =
     (length rs = rl \<and> length ps = pl \<and>
      (\<forall>c \<in> set rs. case c of None \<Rightarrow> True | Some t \<Rightarrow> counts_match t))"

text \<open>A state with other VM fields and with diagnostics printed before, and the same
  allocation outcomes; and the change of the state that an outcome carries.\<close>

definition rebase :: "int \<Rightarrow> mrbc_irep option \<Rightarrow> nat list \<Rightarrow> state \<Rightarrow> state" where
  "rebase a b c s = s\<lparr>vm_mrb := a, vm_irep := b, console := c @ console s\<rparr>"



section \<open>Properties\<close>

declare load_irep_1_pool.simps [simp del]
declare load_irep_0_reps.simps [simp del]

subsection \<open>Readers\<close>

lemma bin_to_uint16_bound: "bin_to_uint16 mem p < 65536"
proof -
  have "unat (mem p) < 256" "unat (mem (p + 1)) < 256"
    using unsigned_less [of "mem p", where 'a = nat]
      unsigned_less [of "mem (p + 1)", where 'a = nat] by simp_all
  then show ?thesis by (simp add: bin_to_uint16_def)
qed


subsection \<open>The header\<close>

lemma load_header_ok:
  "bytes_at mem pos 6 = map of_char ''RITE02'' \<Longrightarrow>
   bytes_at mem (pos + 12) 4 = map of_char ''MATZ'' \<Longrightarrow>
   bytes_at mem (pos + 16) 4 = map of_char ''0000'' \<Longrightarrow>
   load_header mem st pos = (0, pos + 20, st)"
  by (simp add: load_header_def)

lemma load_header_bad:
  "bytes_at mem pos 6 \<noteq> map of_char ''RITE02'' \<or>
   bytes_at mem (pos + 12) 4 \<noteq> map of_char ''MATZ'' \<or>
   bytes_at mem (pos + 16) 4 \<noteq> map of_char ''0000'' \<Longrightarrow>
   \<exists>line. line \<in> {65, 74, 78} \<and> load_header mem st pos = (- 1, pos, mrbc_raise line st)"
  by (auto simp add: load_header_def Let_def)

lemma section_loop_failed:
  "ret \<noteq> 0 \<Longrightarrow> section_loop fuel cfg mem ret st ptr = Some (Return ret st)"
  by (cases fuel) simp_all

text \<open>
  Claim C4. When the first six bytes are not \<^verbatim>\<open>RITE02\<close>, or the originator tag is not
  \<^verbatim>\<open>MATZ\<close>, or the originator version is not \<^verbatim>\<open>0000\<close>, \<open>load_header\<close> fails
  with the cursor where it was, and \<open>mrbc_load_mrb\<close> returns that failure at once, for
  any fuel: the state it leaves differs from the one it was given only in \<^verbatim>\<open>vm->mrb\<close>
  and in one diagnostic line, so no section was read, nothing was allocated and
  \<^verbatim>\<open>vm->irep\<close> is untouched. When all three match, the cursor moves on by exactly 20
  bytes and the section loop starts there.
\<close>

theorem load_header_validates:
  "(bytes_at mem ptr 6 \<noteq> map of_char ''RITE02'' \<or>
    bytes_at mem (ptr + 12) 4 \<noteq> map of_char ''MATZ'' \<or>
    bytes_at mem (ptr + 16) 4 \<noteq> map of_char ''0000'' \<longrightarrow>
      (\<exists>line. line \<in> {65, 74, 78} \<and>
         load_header mem st ptr = (- 1, ptr, mrbc_raise line st) \<and>
         mrbc_load_mrb fuel cfg mem st ptr
           = Some (Return (- 1) (mrbc_raise line (st\<lparr>vm_mrb := ptr\<rparr>)))))
   \<and>
   (bytes_at mem ptr 6 = map of_char ''RITE02'' \<and>
    bytes_at mem (ptr + 12) 4 = map of_char ''MATZ'' \<and>
    bytes_at mem (ptr + 16) 4 = map of_char ''0000'' \<longrightarrow>
      load_header mem st ptr = (0, ptr + 20, st) \<and>
      mrbc_load_mrb fuel cfg mem st ptr
        = section_loop fuel cfg mem 0 (st\<lparr>vm_mrb := ptr\<rparr>) (ptr + 20))"
proof (intro conjI impI)
  assume bad: "bytes_at mem ptr 6 \<noteq> map of_char ''RITE02'' \<or>
    bytes_at mem (ptr + 12) 4 \<noteq> map of_char ''MATZ'' \<or>
    bytes_at mem (ptr + 16) 4 \<noteq> map of_char ''0000''"
  define line :: nat where
    "line = (if bytes_at mem ptr 6 \<noteq> map of_char ''RITE02'' then 65
             else if bytes_at mem (ptr + 12) 4 \<noteq> map of_char ''MATZ'' then 74 else 78)"
  have line: "line \<in> {65, 74, 78}"
    by (simp add: line_def)
  have any_state: "load_header mem s ptr = (- 1, ptr, mrbc_raise line s)" for s
    using bad by (auto simp add: load_header_def line_def)
  note hdr = any_state [of "st\<lparr>vm_mrb := ptr\<rparr>"]
  note same_line = any_state [of st]
  have "mrbc_load_mrb fuel cfg mem st ptr
          = Some (Return (- 1) (mrbc_raise line (st\<lparr>vm_mrb := ptr\<rparr>)))"
    by (simp add: mrbc_load_mrb_def hdr section_loop_failed)
  with line same_line
  show "\<exists>line. line \<in> {65, 74, 78} \<and>
         load_header mem st ptr = (- 1, ptr, mrbc_raise line st) \<and>
         mrbc_load_mrb fuel cfg mem st ptr
           = Some (Return (- 1) (mrbc_raise line (st\<lparr>vm_mrb := ptr\<rparr>)))"
    by blast
next
  assume good: "bytes_at mem ptr 6 = map of_char ''RITE02'' \<and>
    bytes_at mem (ptr + 12) 4 = map of_char ''MATZ'' \<and>
    bytes_at mem (ptr + 16) 4 = map of_char ''0000''"
  then show "load_header mem st ptr = (0, ptr + 20, st)"
    by (simp add: load_header_ok)
  from good show "mrbc_load_mrb fuel cfg mem st ptr
        = section_loop fuel cfg mem 0 (st\<lparr>vm_mrb := ptr\<rparr>) (ptr + 20)"
    by (simp add: mrbc_load_mrb_def load_header_ok)
qed

text \<open>At the container with the magic \<^verbatim>\<open>RITE99\<close> the load fails for any fuel, and at
  the minimal container the header is accepted.\<close>

theorem load_header_validates_witness:
  "bytes_at (memory_of input_bad_magic) 0 6 \<noteq> map of_char ''RITE02''
   \<and> (\<forall>fuel. \<exists>line. line \<in> {65, 74, 78} \<and>
         mrbc_load_mrb fuel debug_build (memory_of input_bad_magic) (start_state []) 0
           = Some (Return (- 1) (mrbc_raise line ((start_state [])\<lparr>vm_mrb := 0\<rparr>))))
   \<and> load_header (memory_of input_minimal) (start_state []) 0 = (0, 20, start_state [])"
proof -
  have bad: "bytes_at (memory_of input_bad_magic) 0 6 \<noteq> map of_char ''RITE02''"
    by code_simp
  have good: "bytes_at (memory_of input_minimal) 0 6 = map of_char ''RITE02'' \<and>
      bytes_at (memory_of input_minimal) (0 + 12) 4 = map of_char ''MATZ'' \<and>
      bytes_at (memory_of input_minimal) (0 + 16) 4 = map of_char ''0000''"
    by code_simp
  have fails: "\<exists>line. line \<in> {65, 74, 78} \<and>
         mrbc_load_mrb fuel debug_build (memory_of input_bad_magic) (start_state []) 0
           = Some (Return (- 1) (mrbc_raise line ((start_state [])\<lparr>vm_mrb := 0\<rparr>)))" for fuel
    using load_header_validates
      [of "memory_of input_bad_magic" 0 "start_state []" fuel debug_build] bad
    by blast
  have accepts: "load_header (memory_of input_minimal) (start_state []) 0 = (0, 20, start_state [])"
    using load_header_validates
      [of "memory_of input_minimal" 0 "start_state []" 0 debug_build] good
    by simp
  from bad fails accepts show ?thesis by blast
qed

subsection \<open>Pool entries\<close>

lemma load_irep_1_switch_tags_agree:
  "load_irep_1_switch cfg mem IREP_TT_STR p st = load_irep_1_switch cfg mem IREP_TT_SSTR p st"
  by (simp add: load_irep_1_switch_def IREP_TT_STR_def IREP_TT_SSTR_def IREP_TT_INT32_def
      IREP_TT_INT64_def IREP_TT_FLOAT_def)

text \<open>
  Claim C8. In a build with strings, a pool entry whose type byte is \<open>IREP_TT_STR\<close> or
  \<open>IREP_TT_SSTR\<close> is decoded, from the cursor \<open>p\<close> just after the type byte, as a
  16-bit length \<open>L\<close> followed by \<open>L\<close> bytes and one terminator: the cursor
  moves to \<open>p + (2 + L + 1)\<close>, the string starts at \<open>p + 2\<close>, and \<open>L\<close> is below
  \<open>2^16\<close>. The two type bytes give the same result.
\<close>

theorem load_irep_1_switch_string:
  assumes "MRBC_USE_STRING cfg" and "tt = IREP_TT_STR \<or> tt = IREP_TT_SSTR"
  shows "load_irep_1_switch cfg mem tt p st
           = Return (MRBC_TT_STRING (p + 2), p + (2 + int (bin_to_uint16 mem p) + 1)) st
         \<and> bin_to_uint16 mem p < 2 ^ 16
         \<and> load_irep_1_switch cfg mem IREP_TT_STR p st
             = load_irep_1_switch cfg mem IREP_TT_SSTR p st"
proof (intro conjI)
  show "load_irep_1_switch cfg mem tt p st
          = Return (MRBC_TT_STRING (p + 2), p + (2 + int (bin_to_uint16 mem p) + 1)) st"
    using assms by (auto simp add: load_irep_1_switch_def Let_def)
  show "bin_to_uint16 mem p < 2 ^ 16"
    using bin_to_uint16_bound [of mem p] by simp
  show "load_irep_1_switch cfg mem IREP_TT_STR p st
          = load_irep_1_switch cfg mem IREP_TT_SSTR p st"
    by (rule load_irep_1_switch_tags_agree)
qed

text \<open>The entry \<^verbatim>\<open>00 03 'a' 'b' 'c' 00\<close> at address 0: the cursor ends at 6.\<close>

theorem load_irep_1_switch_string_witness:
  "MRBC_USE_STRING debug_build
   \<and> load_irep_1_switch debug_build (memory_of [0, 3, 97, 98, 99, 0]) IREP_TT_SSTR 0 (start_state [])
       = Return (MRBC_TT_STRING 2, 6) (start_state [])"
proof -
  have build: "MRBC_USE_STRING debug_build"
    by (simp add: debug_build_def)
  have len: "bin_to_uint16 (memory_of [0, 3, 97, 98, 99, 0]) 0 = 3"
    by (simp add: bin_to_uint16_def memory_of_def)
  from load_irep_1_switch_string
    [OF build disjI2 [OF refl], of "memory_of [0, 3, 97, 98, 99, 0]" 0 "start_state []"]
  have "load_irep_1_switch debug_build (memory_of [0, 3, 97, 98, 99, 0]) IREP_TT_SSTR 0 (start_state [])
          = Return (MRBC_TT_STRING 2, 6) (start_state [])"
    by (simp add: len)
  with build show ?thesis by simp
qed

subsection \<open>The section loop\<close>

lemma section_loop_stuck:
  "bytes_at mem q 4 \<noteq> map of_char ''IREP'' \<Longrightarrow>
   bytes_at mem q 4 \<noteq> map of_char ''LVAR'' \<Longrightarrow>
   bytes_at mem q 4 \<noteq> END_tag \<Longrightarrow>
   section_loop fuel cfg mem 0 st q = None"
  by (induction fuel) simp_all

text \<open>
  Claim C10. When the four bytes at the cursor \<open>q\<close> of the section loop are none of
  \<^verbatim>\<open>IREP\<close>, \<^verbatim>\<open>LVAR\<close> and \<^verbatim>\<open>END\0\<close>, the loop does not return, whatever the fuel:
  an iteration changes neither \<open>ret\<close> nor the cursor nor the state. In particular
  \<open>mrbc_load_mrb\<close> does not return when the header is accepted and the first section
  tag is such.
\<close>

theorem section_loop_unknown_tag_spins:
  assumes "bytes_at mem q 4 \<noteq> map of_char ''IREP''"
    and "bytes_at mem q 4 \<noteq> map of_char ''LVAR''"
    and "bytes_at mem q 4 \<noteq> END_tag"
  shows "section_loop (Suc fuel) cfg mem 0 st q = section_loop fuel cfg mem 0 st q
         \<and> section_loop fuel cfg mem 0 st q = None
         \<and> (load_header mem (st\<lparr>vm_mrb := ptr\<rparr>) ptr = (0, q, st') \<longrightarrow>
              mrbc_load_mrb fuel cfg mem st ptr = None)"
proof (intro conjI impI)
  show "section_loop (Suc fuel) cfg mem 0 st q = section_loop fuel cfg mem 0 st q"
    using assms by simp
  show "section_loop fuel cfg mem 0 st q = None"
    using assms by (rule section_loop_stuck)
  assume "load_header mem (st\<lparr>vm_mrb := ptr\<rparr>) ptr = (0, q, st')"
  then show "mrbc_load_mrb fuel cfg mem st ptr = None"
    using section_loop_stuck [OF assms, of fuel cfg st']
    by (simp add: mrbc_load_mrb_def)
qed

text \<open>A container whose first section is tagged \<^verbatim>\<open>DBG\0\<close>.\<close>

theorem section_loop_unknown_tag_spins_witness:
  "load_header (memory_of input_unknown_section) ((start_state [])\<lparr>vm_mrb := 0\<rparr>) 0
     = (0, 20, start_state [])
   \<and> bytes_at (memory_of input_unknown_section) 20 4 \<noteq> map of_char ''IREP''
   \<and> bytes_at (memory_of input_unknown_section) 20 4 \<noteq> map of_char ''LVAR''
   \<and> bytes_at (memory_of input_unknown_section) 20 4 \<noteq> END_tag
   \<and> (\<forall>fuel. mrbc_load_mrb fuel debug_build (memory_of input_unknown_section) (start_state []) 0
                = None)"
proof -
  have hdr: "load_header (memory_of input_unknown_section) ((start_state [])\<lparr>vm_mrb := 0\<rparr>) 0
     = (0, 20, start_state [])"
    by code_simp
  have t1: "bytes_at (memory_of input_unknown_section) 20 4 \<noteq> map of_char ''IREP''"
    by code_simp
  have t2: "bytes_at (memory_of input_unknown_section) 20 4 \<noteq> map of_char ''LVAR''"
    by code_simp
  have t3: "bytes_at (memory_of input_unknown_section) 20 4 \<noteq> END_tag"
    by code_simp
  have "mrbc_load_mrb fuel debug_build (memory_of input_unknown_section) (start_state []) 0 = None"
    for fuel
    using section_loop_unknown_tag_spins [OF t1 t2 t3, of fuel debug_build "start_state []" 0
        "start_state []"] hdr
    by blast
  with hdr t1 t2 t3 show ?thesis by blast
qed

subsection \<open>Sections\<close>

lemma load_irep_bad_revision:
  "bytes_at mem (pos + 8) 4 \<noteq> map of_char ''0300'' \<Longrightarrow>
   load_irep d cfg mem st pos = Some (Return (- 1, pos) (mrbc_raise 271 st))"
  by (simp add: load_irep_def Let_def add.assoc)





text \<open>
  Claim C5, as amended. When the four bytes of the format revision of a code-tree section
  are not \<^verbatim>\<open>0300\<close>, \<open>load_irep\<close> returns \<open>-1\<close> for any fuel, with the cursor
  where it was and with a state that differs in one diagnostic line only: nothing is
  allocated, no record is decoded and \<^verbatim>\<open>vm->irep\<close> is untouched. The section loop and
  \<open>mrbc_load_mrb\<close> return that \<open>-1\<close>. The value is the one that a header mismatch
  returns: the loader has a single failure value.
\<close>

theorem load_irep_revision_mismatch:
  assumes "bytes_at mem (pos + 8) 4 \<noteq> map of_char ''0300''"
  shows "load_irep d cfg mem st pos = Some (Return (- 1, pos) (mrbc_raise 271 st))
         \<and> heap (mrbc_raise 271 st) = heap st \<and> vm_irep (mrbc_raise 271 st) = vm_irep st
         \<and> (bytes_at mem pos 4 = map of_char ''IREP'' \<longrightarrow>
              section_loop (Suc fuel) cfg mem 0 st pos = Some (Return (- 1) (mrbc_raise 271 st)))
         \<and> (bytes_at mem pos 4 = map of_char ''IREP'' \<and>
            load_header mem (st0\<lparr>vm_mrb := ptr\<rparr>) ptr = (0, pos, st) \<longrightarrow>
              returned (mrbc_load_mrb (Suc fuel) cfg mem st0 ptr) = Some (- 1))"
proof (intro conjI impI)
  show run: "load_irep d cfg mem st pos = Some (Return (- 1, pos) (mrbc_raise 271 st))" for d
    using assms by (rule load_irep_bad_revision)
  show "heap (mrbc_raise 271 st) = heap st" and "vm_irep (mrbc_raise 271 st) = vm_irep st"
    by (simp_all add: mrbc_raise_def)
  {
    assume "bytes_at mem pos 4 = map of_char ''IREP''"
    then show "section_loop (Suc fuel) cfg mem 0 st pos = Some (Return (- 1) (mrbc_raise 271 st))"
      by (simp add: run section_loop_failed)
  }
  assume "bytes_at mem pos 4 = map of_char ''IREP'' \<and>
            load_header mem (st0\<lparr>vm_mrb := ptr\<rparr>) ptr = (0, pos, st)"
  then show "returned (mrbc_load_mrb (Suc fuel) cfg mem st0 ptr) = Some (- 1)"
    by (simp add: mrbc_load_mrb_def run section_loop_failed returned_def)
qed

text \<open>The container whose code-tree section has the revision \<^verbatim>\<open>0200\<close>.\<close>

theorem load_irep_revision_mismatch_witness:
  "bytes_at (memory_of input_bad_revision) (20 + 8) 4 \<noteq> map of_char ''0300''
   \<and> (\<forall>d. load_irep d debug_build (memory_of input_bad_revision) (start_state [True]) 20
           = Some (Return (- 1, 20) (mrbc_raise 271 (start_state [True]))))"
proof -
  have rev: "bytes_at (memory_of input_bad_revision) (20 + 8) 4 \<noteq> map of_char ''0300''"
    by code_simp
  from load_irep_revision_mismatch [OF rev] rev show ?thesis by blast
qed

text \<open>Claim C5 as stated asks for a failure distinct from the one of a malformed
  header. The container with the revision \<^verbatim>\<open>0200\<close> and the container with the magic
  \<^verbatim>\<open>RITE99\<close> hand the same value back to the caller.\<close>

theorem revision_failure_not_distinct:
  "returned (mrbc_load_mrb 1 debug_build (memory_of input_bad_revision) (start_state [True]) 0)
     = Some (- 1)
   \<and> returned (mrbc_load_mrb 1 debug_build (memory_of input_bad_magic) (start_state [True]) 0)
     = Some (- 1)"
  by code_simp

subsection \<open>What load_irep_1 returns\<close>

lemma load_irep_1_switch_cursor:
  "load_irep_1_switch cfg mem tt p st = Return (obj, p') st' \<Longrightarrow> p \<le> p'"
  by (auto simp add: load_irep_1_switch_def Let_def split: if_splits)

lemma load_irep_1_pool_result:
  "load_irep_1_pool cfg mem n i objs st p = Return (Some objs', p') st' \<Longrightarrow> i \<le> n \<Longrightarrow>
   length objs' = length objs + (n - i) \<and> p \<le> p'"
proof (induction cfg mem n i objs st p rule: load_irep_1_pool.induct)
  case (1 cfg mem n i objs st p)
  show ?case
  proof (cases "i < n")
    case True
    obtain ok st1 where al: "mrbc_alloc st = (ok, st1)" by (cases "mrbc_alloc st")
    from "1.prems"(1) True al have ok: ok
      by (auto simp add: load_irep_1_pool.simps [of _ _ n i] Let_def split: if_splits)
    from "1.prems"(1) True al ok obtain obj p2 st2 where
      sw: "load_irep_1_switch cfg mem (unat (mem p)) (p + 1) st1 = Return (obj, p2) st2"
      and rec: "load_irep_1_pool cfg mem n (Suc i) (objs @ [obj]) st2 p2 = Return (Some objs', p') st'"
      by (auto simp add: load_irep_1_pool.simps [of _ _ n i] Let_def split: outcome.splits prod.splits)
    from ok have nn: "\<not> \<not> ok" by simp
    from True have "Suc i \<le> n" by simp
    from "1.IH" [OF True refl refl refl al [symmetric] nn sw refl rec this]
    have "length objs' = length (objs @ [obj]) + (n - Suc i) \<and> p2 \<le> p'" by simp
    moreover from load_irep_1_switch_cursor [OF sw] have "p \<le> p2" by simp
    ultimately show ?thesis using True by simp
  next
    case False
    with "1.prems" show ?thesis
      by (simp add: load_irep_1_pool.simps [of _ _ n i])
  qed
qed

lemma load_irep_1_syms_cursor: "p \<le> load_irep_1_syms mem slen p"
proof (induction slen arbitrary: p)
  case 0
  show ?case by simp
next
  case (Suc slen)
  have "p \<le> p + 2 + (int (bin_to_uint16 mem p) + 1)" by simp
  also have "\<dots> \<le> load_irep_1_syms mem slen (p + 2 + (int (bin_to_uint16 mem p) + 1))"
    by (rule Suc.IH)
  finally show ?case by (simp add: Let_def)
qed

lemma load_irep_1_result:
  assumes "load_irep_1 cfg mem st pos = Return (Some t, pos') st'"
  shows "reps t = [] \<and> length (pools t) = plen t
         \<and> nlocals t = bin_to_uint16 mem (pos + 4) \<and> nregs t = bin_to_uint16 mem (pos + 6)
         \<and> rlen t = bin_to_uint16 mem (pos + 8) \<and> clen t = bin_to_uint16 mem (pos + 10)
         \<and> ilen t = bin_to_uint16 mem (pos + 12) \<and> code t = pos + 14
         \<and> pos + 18 \<le> pos'"
proof -
  obtain ok1 st1 where a1: "mrbc_alloc st = (ok1, st1)" by (cases "mrbc_alloc st")
  define rl where "rl = bin_to_uint16 mem (pos + 8)"
  obtain ok2 st2 where a2: "(if rl \<noteq> 0 then mrbc_alloc st1 else (True, st1)) = (ok2, st2)"
    by (cases "if rl \<noteq> 0 then mrbc_alloc st1 else (True, st1)")
  define q where "q = pos + 14 + int (bin_to_uint16 mem (pos + 12)
                        + sizeof_mrbc_irep_catch_handler * bin_to_uint16 mem (pos + 10))"
  define pl where "pl = bin_to_uint16 mem q"
  obtain ok3 st3 where a3: "(if pl \<noteq> 0 then mrbc_alloc st2 else (True, st2)) = (ok3, st3)"
    by (cases "if pl \<noteq> 0 then mrbc_alloc st2 else (True, st2)")
  from assms a1 a2 a3 have oks: "ok1" "ok2" "ok3"
    by (auto simp add: load_irep_1_def Let_def rl_def q_def pl_def add.assoc split: if_splits)
  from assms a1 a2 a3 oks obtain objs p4 where
    pool: "load_irep_1_pool cfg mem pl 0 [] st3 (q + 2) = Return (Some objs, p4) st'"
    and t: "t = Irep (bin_to_uint16 mem (pos + 4)) (bin_to_uint16 mem (pos + 6)) rl
                 (bin_to_uint16 mem (pos + 10)) (bin_to_uint16 mem (pos + 12)) (pos + 14)
                 pl objs p4 []"
    and pos': "pos' = load_irep_1_syms mem (bin_to_uint16 mem p4) (p4 + 2)"
    by (auto simp add: load_irep_1_def Let_def rl_def q_def pl_def add.assoc
        split: if_splits outcome.splits prod.splits option.splits)
  from load_irep_1_pool_result [OF pool] have len: "length objs = pl" and q4: "q + 2 \<le> p4"
    by simp_all
  have "pos + 14 \<le> q" by (simp add: q_def)
  with q4 have "pos + 18 \<le> p4 + 2" by simp
  also have "\<dots> \<le> pos'" unfolding pos' by (rule load_irep_1_syms_cursor)
  finally have "pos + 18 \<le> pos'" .
  with t len show ?thesis by (simp add: rl_def)
qed

lemma load_irep_1_failure:
  "load_irep_1 cfg mem st pos = Return (None, pos') st' \<Longrightarrow> pos' = pos"
  by (auto simp add: load_irep_1_def Let_def split: if_splits outcome.splits prod.splits option.splits)

subsection \<open>The loop over the children\<close>

lemma load_irep_0_reps_step:
  assumes "i < n"
    and "load_irep_0_reps d cfg mem n i rs st pos = Some (Return (rs', pos') st')"
  obtains c pos1 st1 where
    "load_irep_0 d cfg mem st pos = Some (Return (c, pos1) st1)"
    "load_irep_0_reps d cfg mem n (Suc i) (rs @ [c]) st1 pos1 = Some (Return (rs', pos') st')"
  using assms
  by (auto simp add: load_irep_0_reps.simps [of d cfg mem n i]
      split: option.splits outcome.splits prod.splits)

lemma load_irep_0_reps_done:
  "\<not> i < n \<Longrightarrow> load_irep_0_reps d cfg mem n i rs st pos = Some (Return (rs, pos) st)"
  by (simp add: load_irep_0_reps.simps [of d cfg mem n i])

lemma load_irep_0_reps_trace:
  assumes "load_irep_0_reps d cfg mem n i rs st pos = Some (Return (rs', pos') st')"
    and "i \<le> n"
  shows "\<exists>tr. length tr = Suc (n - i) \<and> tr ! 0 = (st, pos) \<and> tr ! (n - i) = (st', pos')
           \<and> length rs' = length rs + (n - i) \<and> take (length rs) rs' = rs
           \<and> (\<forall>k < n - i. load_irep_0 d cfg mem (fst (tr ! k)) (snd (tr ! k))
                  = Some (Return (rs' ! (length rs + k), snd (tr ! Suc k)) (fst (tr ! Suc k))))"
  using assms
proof (induction m \<equiv> "n - i" arbitrary: i rs st pos)
  case 0
  then have "\<not> i < n" by simp
  with "0.prems"(1) have "rs' = rs" "pos' = pos" "st' = st"
    by (simp_all add: load_irep_0_reps_done)
  with 0 show ?case
    by (intro exI [of _ "[(st, pos)]"]) simp
next
  case (Suc m)
  then have lt: "i < n" by simp
  from load_irep_0_reps_step [OF lt Suc.prems(1)] obtain c pos1 st1 where
    first: "load_irep_0 d cfg mem st pos = Some (Return (c, pos1) st1)"
    and rest: "load_irep_0_reps d cfg mem n (Suc i) (rs @ [c]) st1 pos1 = Some (Return (rs', pos') st')"
    by blast
  from Suc.hyps(2) lt have m: "m = n - Suc i" and le: "Suc i \<le> n" by simp_all
  from Suc.hyps(1) [OF m rest le] obtain tr1 where
    len1: "length tr1 = Suc (n - Suc i)"
    and hd1: "tr1 ! 0 = (st1, pos1)"
    and last1: "tr1 ! (n - Suc i) = (st', pos')"
    and lrs: "length rs' = length (rs @ [c]) + (n - Suc i)"
    and pre: "take (length (rs @ [c])) rs' = rs @ [c]"
    and steps1: "\<forall>k < n - Suc i. load_irep_0 d cfg mem (fst (tr1 ! k)) (snd (tr1 ! k))
                  = Some (Return (rs' ! (length (rs @ [c]) + k), snd (tr1 ! Suc k)) (fst (tr1 ! Suc k)))"
    by blast
  have ni: "n - i = Suc (n - Suc i)" using lt by simp
  have "take (length rs) (take (length (rs @ [c])) rs') = take (length rs) (rs @ [c])"
    by (simp only: pre)
  then have pre': "take (length rs) rs' = rs" by simp
  have "take (length (rs @ [c])) rs' ! length rs = rs' ! length rs" by simp
  with pre have at: "rs' ! length rs = c" by simp
  let ?tr = "(st, pos) # tr1"
  have "\<forall>k < n - i. load_irep_0 d cfg mem (fst (?tr ! k)) (snd (?tr ! k))
                  = Some (Return (rs' ! (length rs + k), snd (?tr ! Suc k)) (fst (?tr ! Suc k)))"
  proof (intro allI impI)
    fix k assume k: "k < n - i"
    show "load_irep_0 d cfg mem (fst (?tr ! k)) (snd (?tr ! k))
            = Some (Return (rs' ! (length rs + k), snd (?tr ! Suc k)) (fst (?tr ! Suc k)))"
    proof (cases k)
      case 0
      with first hd1 at show ?thesis by simp
    next
      case (Suc j)
      with k ni have "j < n - Suc i" by simp
      with steps1 Suc show ?thesis by simp
    qed
  qed
  moreover have "length ?tr = Suc (n - i)" using len1 ni by simp
  moreover have "?tr ! 0 = (st, pos)" by simp
  moreover have "?tr ! (n - i) = (st', pos')" using last1 ni by simp
  moreover have "length rs' = length rs + (n - i)" using lrs ni by simp
  ultimately show ?case using pre' by blast
qed

lemma load_irep_0_cursor:
  "load_irep_0 d cfg mem st pos = Some (Return (r, pos') st') \<Longrightarrow> pos \<le> pos'"
  "load_irep_0_reps d cfg mem n i rs st pos = Some (Return (rs', pos') st') \<Longrightarrow> pos \<le> pos'"
proof (induction d cfg mem st pos and d cfg mem n i rs st pos
       arbitrary: r pos' st' and rs' pos' st' rule: load_irep_0_load_irep_0_reps.induct)
  case (1 cfg mem st pos)
  then show ?case by simp
next
  case (2 d cfg mem st pos)
  show ?case
  proof (cases "load_irep_1 cfg mem st pos")
    case (Abort sa)
    with "2.prems" show ?thesis by simp
  next
    case (Return a st1)
    obtain r1 pos1 where a: "a = (r1, pos1)" by (cases a)
    show ?thesis
    proof (cases r1)
      case None
      with Return a "2.prems" load_irep_1_failure [of cfg mem st pos pos1 st1]
      show ?thesis by simp
    next
      case (Some irep)
      from load_irep_1_result [of cfg mem st pos irep pos1 st1] Return a Some
      have p1: "pos \<le> pos1" by simp
      from "2.prems" Return a Some obtain rs where
        "load_irep_0_reps d cfg mem (rlen irep) 0 [] st1 pos1 = Some (Return (rs, pos') st')"
        by (auto split: option.splits outcome.splits prod.splits)
      from "2.IH" [OF Return a [symmetric] Some this] p1 show ?thesis by simp
    qed
  qed
next
  case (3 d cfg mem n i rs st pos)
  show ?case
  proof (cases "i < n")
    case True
    from load_irep_0_reps_step [OF True "3.prems"] obtain c pos1 st1 where
      first: "load_irep_0 d cfg mem st pos = Some (Return (c, pos1) st1)"
      and rest: "load_irep_0_reps d cfg mem n (Suc i) (rs @ [c]) st1 pos1 = Some (Return (rs', pos') st')"
      by blast
    from "3.IH"(1) [OF True first] have "pos \<le> pos1" .
    also from "3.IH"(2) [OF True first refl refl rest] have "pos1 \<le> pos'" .
    finally show ?thesis .
  next
    case False
    with "3.prems" show ?thesis by (simp add: load_irep_0_reps_done)
  qed
qed

lemma set_reps_sel [simp]:
  "reps (set_reps t rs) = rs" "rlen (set_reps t rs) = rlen t" "plen (set_reps t rs) = plen t"
  "pools (set_reps t rs) = pools t"
  by (cases t; simp)+

lemma counts_match_iff:
  "counts_match t \<longleftrightarrow>
     length (reps t) = rlen t \<and> length (pools t) = plen t \<and>
     (\<forall>c \<in> set (reps t). \<forall>u. c = Some u \<longrightarrow> counts_match u)"
  by (cases t) (auto split: option.splits)

lemma load_irep_0_counts_match:
  "load_irep_0 d cfg mem st pos = Some (Return (r, pos') st') \<Longrightarrow>
     \<forall>t. r = Some t \<longrightarrow> counts_match t"
  "load_irep_0_reps d cfg mem n i rs st pos = Some (Return (rs', pos') st') \<Longrightarrow>
     \<forall>c \<in> set rs. \<forall>t. c = Some t \<longrightarrow> counts_match t \<Longrightarrow>
     \<forall>c \<in> set rs'. \<forall>t. c = Some t \<longrightarrow> counts_match t"
proof (induction d cfg mem st pos and d cfg mem n i rs st pos
       arbitrary: r pos' st' and rs' pos' st' rule: load_irep_0_load_irep_0_reps.induct)
  case (1 cfg mem st pos)
  then show ?case by simp
next
  case (2 d cfg mem st pos)
  show ?case
  proof (intro allI impI)
    fix t assume r: "r = Some t"
    with "2.prems" obtain irep pos1 st1 rs where
      one: "load_irep_1 cfg mem st pos = Return (Some irep, pos1) st1"
      and loop: "load_irep_0_reps d cfg mem (rlen irep) 0 [] st1 pos1 = Some (Return (rs, pos') st')"
      and t: "t = set_reps irep rs"
      by (auto split: option.splits outcome.splits prod.splits)
    from "2.IH" [OF one refl refl loop]
    have kids: "\<forall>c \<in> set rs. \<forall>t. c = Some t \<longrightarrow> counts_match t" by simp
    from load_irep_0_reps_trace [OF loop] have len: "length rs = rlen irep" by auto
    from load_irep_1_result [OF one] have "length (pools irep) = plen irep" by simp
    with kids len t show "counts_match t"
      by (subst counts_match_iff) simp
  qed
next
  case (3 d cfg mem n i rs st pos)
  show ?case
  proof (cases "i < n")
    case True
    from load_irep_0_reps_step [OF True "3.prems"(1)] obtain c pos1 st1 where
      first: "load_irep_0 d cfg mem st pos = Some (Return (c, pos1) st1)"
      and rest: "load_irep_0_reps d cfg mem n (Suc i) (rs @ [c]) st1 pos1 = Some (Return (rs', pos') st')"
      by blast
    from "3.IH"(1) [OF True first] have "\<forall>t. c = Some t \<longrightarrow> counts_match t" .
    with "3.prems"(2) have "\<forall>c \<in> set (rs @ [c]). \<forall>t. c = Some t \<longrightarrow> counts_match t"
      by auto
    from "3.IH"(2) [OF True first refl refl rest this] show ?thesis .
  next
    case False
    with "3.prems" show ?thesis by (simp add: load_irep_0_reps_done)
  qed
qed

lemma load_irep_success_tree:
  assumes "load_irep d cfg mem st pos = Some (Return (0, pos') st')"
  shows "\<exists>t p s. vm_irep st' = Some t \<and> st' = s\<lparr>vm_irep := Some t\<rparr> \<and>
           load_irep_0 d cfg mem st (pos + 12) = Some (Return (Some t, p) s)"
  using assms
  by (auto simp add: load_irep_def Let_def add.assoc
      split: if_splits option.splits outcome.splits prod.splits)

lemma code_set_reps [simp]: "code (set_reps t rs) = code t"
  by (cases t) simp

lemma load_irep_0_record_start:
  assumes "load_irep_0 d cfg mem st pos = Some (Return (Some c, pos') st')"
  shows "code c = pos + 14 \<and> pos + 18 \<le> pos'"
proof (cases d)
  case 0
  with assms show ?thesis by simp
next
  case (Suc d')
  with assms obtain t1 pos1 st1 rs where
    one: "load_irep_1 cfg mem st pos = Return (Some t1, pos1) st1"
    and loop: "load_irep_0_reps d' cfg mem (rlen t1) 0 [] st1 pos1 = Some (Return (rs, pos') st')"
    and c: "c = set_reps t1 rs"
    by (auto split: option.splits outcome.splits prod.splits)
  from load_irep_1_result [OF one] have "code t1 = pos + 14" "pos + 18 \<le> pos1" by simp_all
  moreover from load_irep_0_cursor(2) [OF loop] have "pos1 \<le> pos'" .
  ultimately show ?thesis using c by simp
qed

lemma section_loop_tree:
  "section_loop n cfg mem ret s ptr = Some (Return 0 s') \<Longrightarrow>
   vm_irep s' = vm_irep s \<or> (\<exists>t. vm_irep s' = Some t \<and> counts_match t)"
proof (induction n arbitrary: ret s ptr)
  case 0
  then show ?case by (cases "ret = 0") auto
next
  case (Suc n)
  show ?case
  proof (cases "ret = 0")
    case False
    with Suc.prems show ?thesis by auto
  next
    case True
    show ?thesis
    proof (cases "bytes_at mem ptr 4 = map of_char ''IREP''")
      case irep: True
      with True Suc.prems obtain ret1 ptr1 s1 where
        x: "load_irep n cfg mem s ptr = Some (Return (ret1, ptr1) s1)"
        and rest: "section_loop n cfg mem ret1 s1 ptr1 = Some (Return 0 s')"
        by (auto split: option.splits outcome.splits prod.splits)
      have "ret1 = 0"
      proof (rule ccontr)
        assume "ret1 \<noteq> 0"
        with rest section_loop_failed [of ret1 n cfg mem s1 ptr1] show False by simp
      qed
      with x load_irep_success_tree [of n cfg mem s ptr ptr1 s1] load_irep_0_counts_match(1)
      obtain t where t: "vm_irep s1 = Some t" "counts_match t" by blast
      from Suc.IH [OF rest] t show ?thesis by auto
    next
      case not_irep: False
      show ?thesis
      proof (cases "bytes_at mem ptr 4 = map of_char ''LVAR''")
        case lvar: True
        with True not_irep Suc.prems
        have "section_loop n cfg mem 0 s (ptr + uint (bin_to_uint32 mem (ptr + 4)))
                = Some (Return 0 s')"
          by (simp add: load_lvar_def)
        from Suc.IH [OF this] show ?thesis .
      next
        case not_lvar: False
        show ?thesis
        proof (cases "bytes_at mem ptr 4 = END_tag")
          case True
          with \<open>ret = 0\<close> not_irep not_lvar Suc.prems show ?thesis by auto
        next
          case False
          with \<open>ret = 0\<close> not_irep not_lvar Suc.prems
          have "section_loop n cfg mem ret s ptr = Some (Return 0 s')" by simp
          from Suc.IH [OF this] show ?thesis .
        qed
      qed
    qed
  qed
qed

lemma mrbc_load_mrb_tree:
  assumes "mrbc_load_mrb n cfg mem s ptr = Some (Return 0 s')"
  shows "vm_irep s' = vm_irep s \<or> (\<exists>t. vm_irep s' = Some t \<and> counts_match t)"
proof -
  obtain ret p s1 where h: "load_header mem (s\<lparr>vm_mrb := ptr\<rparr>) ptr = (ret, p, s1)"
    by (cases "load_header mem (s\<lparr>vm_mrb := ptr\<rparr>) ptr")
  then have "vm_irep s1 = vm_irep s"
    by (auto simp add: load_header_def mrbc_raise_def split: if_splits)
  moreover from assms h have "section_loop n cfg mem ret s1 p = Some (Return 0 s')"
    by (simp add: mrbc_load_mrb_def)
  ultimately show ?thesis using section_loop_tree by fastforce
qed

text \<open>
  What holds of the child slots in every run. When \<open>load_irep_0\<close> returns a record
  \<open>t\<close>, then \<open>load_irep_1\<close> has read the record's own fields first, from the cursor
  it was given, and \<open>t\<close> is that record with its child slots filled; there are exactly
  \<open>rlen t\<close> slots; and there is a sequence \<open>tr\<close> of \<open>rlen t + 1\<close> states and
  cursors, starting where the own fields end and ending with the state and cursor that
  \<open>load_irep_0\<close> returns, such that slot \<open>k\<close> holds what a complete call of
  \<open>load_irep_0\<close> returns when started at entry \<open>k\<close> of the sequence, and that call
  ends at entry \<open>k + 1\<close>, where the next sibling starts. The cursors of the sequence
  never decrease, and a slot that holds a record holds the record that starts at its
  entry of the sequence (its code is 14 bytes further) and takes at least 18 bytes.
  Every record of the tree has as many slots as it declares children
  (\<open>counts_match\<close>). A slot may hold \<^verbatim>\<open>NULL\<close>, and the call of the next slot then
  starts at the same cursor: this statement does not say that slot \<open>k\<close> holds the
  \<open>k\<close>-th child record of the input.
\<close>

lemma load_irep_0_children_in_order:
  "(load_irep_0 (Suc d) cfg mem st pos = Some (Return (Some t, pos') st') \<longrightarrow>
      (\<exists>t1 tr.
         load_irep_1 cfg mem st pos = Return (Some t1, snd (tr ! 0)) (fst (tr ! 0))
         \<and> t = set_reps t1 (reps t)
         \<and> length (reps t) = rlen t
         \<and> length tr = Suc (rlen t)
         \<and> tr ! rlen t = (st', pos')
         \<and> (\<forall>k < rlen t.
               load_irep_0 d cfg mem (fst (tr ! k)) (snd (tr ! k))
                 = Some (Return (reps t ! k, snd (tr ! Suc k)) (fst (tr ! Suc k)))
               \<and> snd (tr ! k) \<le> snd (tr ! Suc k)
               \<and> (\<forall>c. reps t ! k = Some c \<longrightarrow>
                     code c = snd (tr ! k) + 14 \<and> snd (tr ! k) + 18 \<le> snd (tr ! Suc k)))
         \<and> pos + 18 \<le> snd (tr ! 0)
         \<and> counts_match t))
   \<and> (load_irep d cfg mem st pos = Some (Return (0, pos') st') \<longrightarrow>
        (\<exists>t. vm_irep st' = Some t \<and> counts_match t))
   \<and> (mrbc_load_mrb d cfg mem st pos = Some (Return 0 st') \<longrightarrow>
        vm_irep st' = vm_irep st \<or> (\<exists>t. vm_irep st' = Some t \<and> counts_match t))"
proof (intro conjI impI)
  assume run: "load_irep_0 (Suc d) cfg mem st pos = Some (Return (Some t, pos') st')"
  then obtain t1 pos1 st1 rs where
    one: "load_irep_1 cfg mem st pos = Return (Some t1, pos1) st1"
    and loop: "load_irep_0_reps d cfg mem (rlen t1) 0 [] st1 pos1 = Some (Return (rs, pos') st')"
    and t: "t = set_reps t1 rs"
    by (auto split: option.splits outcome.splits prod.splits)
  from load_irep_0_reps_trace [OF loop] obtain tr where
    len: "length tr = Suc (rlen t1)"
    and first: "tr ! 0 = (st1, pos1)"
    and last: "tr ! rlen t1 = (st', pos')"
    and lrs: "length rs = rlen t1"
    and steps: "\<forall>k < rlen t1. load_irep_0 d cfg mem (fst (tr ! k)) (snd (tr ! k))
                  = Some (Return (rs ! k, snd (tr ! Suc k)) (fst (tr ! Suc k)))"
    by auto
  have order: "\<forall>k < rlen t1. snd (tr ! k) \<le> snd (tr ! Suc k)"
    using steps load_irep_0_cursor(1) by blast
  have starts: "\<forall>k < rlen t1. \<forall>c. rs ! k = Some c \<longrightarrow>
                  code c = snd (tr ! k) + 14 \<and> snd (tr ! k) + 18 \<le> snd (tr ! Suc k)"
  proof (intro allI impI)
    fix k c
    assume k: "k < rlen t1" and c: "rs ! k = Some c"
    from steps k have "load_irep_0 d cfg mem (fst (tr ! k)) (snd (tr ! k))
                         = Some (Return (rs ! k, snd (tr ! Suc k)) (fst (tr ! Suc k)))"
      by blast
    with c have "load_irep_0 d cfg mem (fst (tr ! k)) (snd (tr ! k))
                   = Some (Return (Some c, snd (tr ! Suc k)) (fst (tr ! Suc k)))"
      by simp
    then show "code c = snd (tr ! k) + 14 \<and> snd (tr ! k) + 18 \<le> snd (tr ! Suc k)"
      by (rule load_irep_0_record_start)
  qed
  from load_irep_1_result [OF one] have start: "pos + 18 \<le> pos1" by simp
  from load_irep_0_counts_match(1) [OF run] have cm: "counts_match t" by simp
  have "load_irep_1 cfg mem st pos = Return (Some t1, snd (tr ! 0)) (fst (tr ! 0))"
    using one first by simp
  moreover have "t = set_reps t1 (reps t)" using t by simp
  moreover have "length (reps t) = rlen t" using t lrs by simp
  moreover have "length tr = Suc (rlen t)" using t len by simp
  moreover have "tr ! rlen t = (st', pos')" using t last by simp
  moreover have "\<forall>k < rlen t.
               load_irep_0 d cfg mem (fst (tr ! k)) (snd (tr ! k))
                 = Some (Return (reps t ! k, snd (tr ! Suc k)) (fst (tr ! Suc k)))
               \<and> snd (tr ! k) \<le> snd (tr ! Suc k)
               \<and> (\<forall>c. reps t ! k = Some c \<longrightarrow>
                     code c = snd (tr ! k) + 14 \<and> snd (tr ! k) + 18 \<le> snd (tr ! Suc k))"
    using t steps order starts by simp
  moreover have "pos + 18 \<le> snd (tr ! 0)" using start first by simp
  ultimately show "\<exists>t1 tr.
         load_irep_1 cfg mem st pos = Return (Some t1, snd (tr ! 0)) (fst (tr ! 0))
         \<and> t = set_reps t1 (reps t)
         \<and> length (reps t) = rlen t
         \<and> length tr = Suc (rlen t)
         \<and> tr ! rlen t = (st', pos')
         \<and> (\<forall>k < rlen t.
               load_irep_0 d cfg mem (fst (tr ! k)) (snd (tr ! k))
                 = Some (Return (reps t ! k, snd (tr ! Suc k)) (fst (tr ! Suc k)))
               \<and> snd (tr ! k) \<le> snd (tr ! Suc k)
               \<and> (\<forall>c. reps t ! k = Some c \<longrightarrow>
                     code c = snd (tr ! k) + 14 \<and> snd (tr ! k) + 18 \<le> snd (tr ! Suc k)))
         \<and> pos + 18 \<le> snd (tr ! 0)
         \<and> counts_match t"
    using cm by blast
next
  assume "load_irep d cfg mem st pos = Some (Return (0, pos') st')"
  from load_irep_success_tree [OF this] obtain t p s where
    "vm_irep st' = Some t" "load_irep_0 d cfg mem st (pos + 12) = Some (Return (Some t, p) s)"
    by blast
  with load_irep_0_counts_match(1) show "\<exists>t. vm_irep st' = Some t \<and> counts_match t"
    by blast
next
  assume "mrbc_load_mrb d cfg mem st pos = Some (Return 0 st')"
  then show "vm_irep st' = vm_irep st \<or> (\<exists>t. vm_irep st' = Some t \<and> counts_match t)"
    by (rule mrbc_load_mrb_tree)
qed

text \<open>The record with two children, decoded from address 32 of its container, and the
  load of the whole container.\<close>

lemma load_irep_0_children_in_order_example:
  "load_irep_0 (Suc 1) debug_build (memory_of input_two_children) (start_state [True, True, True, True]) 32
     = Some (Return (Some two_children_tree, 86) (start_state []))
   \<and> (\<exists>t1 tr.
         load_irep_1 debug_build (memory_of input_two_children) (start_state [True, True, True, True]) 32
           = Return (Some t1, snd (tr ! 0)) (fst (tr ! 0))
         \<and> two_children_tree = set_reps t1 (reps two_children_tree)
         \<and> length (reps two_children_tree) = rlen two_children_tree
         \<and> length tr = Suc (rlen two_children_tree)
         \<and> tr ! rlen two_children_tree = (start_state [], 86)
         \<and> (\<forall>k < rlen two_children_tree.
               load_irep_0 1 debug_build (memory_of input_two_children) (fst (tr ! k)) (snd (tr ! k))
                 = Some (Return (reps two_children_tree ! k, snd (tr ! Suc k)) (fst (tr ! Suc k)))
               \<and> snd (tr ! k) \<le> snd (tr ! Suc k)
               \<and> (\<forall>c. reps two_children_tree ! k = Some c \<longrightarrow>
                     code c = snd (tr ! k) + 14 \<and> snd (tr ! k) + 18 \<le> snd (tr ! Suc k)))
         \<and> 32 + 18 \<le> snd (tr ! 0)
         \<and> counts_match two_children_tree)
   \<and> rlen two_children_tree = 2
   \<and> mrbc_load_mrb 3 debug_build (memory_of input_two_children) (start_state [True, True, True, True]) 0
       = Some (Return 0 (loaded two_children_tree))
   \<and> counts_match two_children_tree"
proof -
  have run: "load_irep_0 (Suc 1) debug_build (memory_of input_two_children)
               (start_state [True, True, True, True]) 32
     = Some (Return (Some two_children_tree, 86) (start_state []))"
    by code_simp
  have two: "rlen two_children_tree = 2"
    by (simp add: two_children_tree_def)
  have whole: "mrbc_load_mrb 3 debug_build (memory_of input_two_children)
                 (start_state [True, True, True, True]) 0
       = Some (Return 0 (loaded two_children_tree))"
    by code_simp
  note children = load_irep_0_children_in_order [of 1 debug_build "memory_of input_two_children"
      "start_state [True, True, True, True]" 32 two_children_tree 86 "start_state []"]
  from children run
  have c1: "\<exists>t1 tr.
         load_irep_1 debug_build (memory_of input_two_children) (start_state [True, True, True, True]) 32
           = Return (Some t1, snd (tr ! 0)) (fst (tr ! 0))
         \<and> two_children_tree = set_reps t1 (reps two_children_tree)
         \<and> length (reps two_children_tree) = rlen two_children_tree
         \<and> length tr = Suc (rlen two_children_tree)
         \<and> tr ! rlen two_children_tree = (start_state [], 86)
         \<and> (\<forall>k < rlen two_children_tree.
               load_irep_0 1 debug_build (memory_of input_two_children) (fst (tr ! k)) (snd (tr ! k))
                 = Some (Return (reps two_children_tree ! k, snd (tr ! Suc k)) (fst (tr ! Suc k)))
               \<and> snd (tr ! k) \<le> snd (tr ! Suc k)
               \<and> (\<forall>c. reps two_children_tree ! k = Some c \<longrightarrow>
                     code c = snd (tr ! k) + 14 \<and> snd (tr ! k) + 18 \<le> snd (tr ! Suc k)))
         \<and> 32 + 18 \<le> snd (tr ! 0)
         \<and> counts_match two_children_tree"
    by blast
  then have cm: "counts_match two_children_tree" by blast
  from run c1 two whole cm show ?thesis by blast
qed

subsection \<open>Fuel\<close>


subsection \<open>Independence of the rest of the state\<close>

lemma heap_rebase [simp]: "heap (rebase a b c s) = heap s"
  by (simp add: rebase_def)



















subsection \<open>Where the code departs from the claims\<close>

text \<open>A child that came back as \<^verbatim>\<open>NULL\<close> is stored in its slot and the loop goes on
  with the next slot, from the cursor that the failed call left.\<close>

lemma load_irep_0_reps_after_NULL:
  assumes "i < n" and "load_irep_0 d cfg mem st pos = Some (Return (None, pos1) st1)"
  shows "load_irep_0_reps d cfg mem n i rs st pos
           = load_irep_0_reps d cfg mem n (Suc i) (rs @ [None]) st1 pos1"
  using assms by (simp add: load_irep_0_reps.simps [of d cfg mem n i])

text \<open>
  Claim C2 (the code departs from it). The loop of \<open>load_irep_0\<close> stores what the
  recursive call returns without testing it for \<^verbatim>\<open>NULL\<close>, while the call of
  \<open>load_irep_1\<close> three lines above is tested. At the container whose root declares
  one child, with the third allocation (the child's \<^verbatim>\<open>mrbc_irep\<close>) refused, the
  load returns 0, and the root it leaves in \<^verbatim>\<open>vm->irep\<close> has a \<^verbatim>\<open>NULL\<close> child slot.
\<close>

theorem child_failure_is_not_propagated:
  "mrbc_load_mrb 3 debug_build (memory_of input_one_child) (start_state [True, True, False]) 0
     = Some (Return 0
         \<lparr>vm_mrb = 0, vm_irep = Some (Irep 1 2 1 0 0 46 0 [] 48 [None]), heap = [],
            console = [124]\<rparr>)"
  by code_simp

text \<open>
  Claim C3 (the code departs from it). The container whose root declares two children
  holds the first child record at 50 (its code at 64) and the second at 68 (its code
  at 82). When every allocation is granted, the slots hold these two records in this
  order. When the allocation of the first child is refused and the next one granted,
  the load still returns 0, the first slot is \<^verbatim>\<open>NULL\<close>, and the second slot holds
  the first child record of the input: the failed call left the cursor at 50, and the
  call for the second slot started there. When the allocator is exhausted after the
  root, the load returns 0 and both slots are \<^verbatim>\<open>NULL\<close>. The cause is the missing test
  of claim C2.
\<close>

theorem child_slots_after_swallowed_failure:
  "mrbc_load_mrb 3 debug_build (memory_of input_two_children)
       (start_state [True, True, True, True]) 0
     = Some (Return 0
         \<lparr>vm_mrb = 0,
            vm_irep = Some (Irep 1 2 2 0 0 46 0 [] 48
                        [Some (Irep 1 2 0 0 0 64 0 [] 66 []), Some (Irep 1 2 0 0 0 82 0 [] 84 [])]),
            heap = [], console = []\<rparr>)
   \<and> mrbc_load_mrb 3 debug_build (memory_of input_two_children)
       (start_state [True, True, False, True]) 0
     = Some (Return 0
         \<lparr>vm_mrb = 0,
            vm_irep = Some (Irep 1 2 2 0 0 46 0 [] 48 [None, Some (Irep 1 2 0 0 0 64 0 [] 66 [])]),
            heap = [], console = [124]\<rparr>)
   \<and> mrbc_load_mrb 3 debug_build (memory_of input_two_children) (start_state [True, True]) 0
     = Some (Return 0
         \<lparr>vm_mrb = 0, vm_irep = Some (Irep 1 2 2 0 0 46 0 [] 48 [None, None]),
            heap = [], console = [124, 124]\<rparr>)"
  by code_simp

text \<open>A type byte outside the enumeration reaches the \<^verbatim>\<open>default\<close> label, whose only
  statement is an \<^verbatim>\<open>assert\<close>.\<close>

lemma load_irep_1_switch_unknown:
  assumes "tt \<noteq> IREP_TT_STR" "tt \<noteq> IREP_TT_SSTR" "tt \<noteq> IREP_TT_INT32"
    "tt \<noteq> IREP_TT_INT64" "tt \<noteq> IREP_TT_FLOAT"
  shows "load_irep_1_switch cfg mem tt p st
           = (if NDEBUG cfg then Return (Uninitialised, p) st else Abort st)"
  using assms by (simp add: load_irep_1_switch_def)

text \<open>
  Claim C1 (the code departs from it). The unknown type byte is caught by an
  \<^verbatim>\<open>assert\<close> only. At the container whose pool entry has the type byte \<open>0x7F\<close>,
  a build with \<^verbatim>\<open>NDEBUG\<close> returns 0 with an object in the pool that was never
  written, the cursor moved past the type byte alone; a build with assertions is
  aborted, and nothing is returned.
\<close>

theorem unknown_tt_is_skipped_without_assert:
  "mrbc_load_mrb 2 release_build (memory_of input_unknown_tt) (start_state [True, True, True]) 0
     = Some (Return 0
         \<lparr>vm_mrb = 0, vm_irep = Some (Irep 1 2 0 0 0 46 1 [Uninitialised] 49 []), heap = [],
            console = []\<rparr>)
   \<and> mrbc_load_mrb 2 debug_build (memory_of input_unknown_tt) (start_state [True, True, True]) 0
     = Some (Abort \<lparr>vm_mrb = 0, vm_irep = None, heap = [], console = []\<rparr>)"
  by code_simp

text \<open>The branch of the 64-bit integer: the cursor moves by 8 in either build, and with
  \<^verbatim>\<open>MRBC_INT64\<close> the value is the first four bytes, big-endian, times \<open>2^32\<close> plus
  the last four.\<close>

lemma load_irep_1_switch_int64:
  "load_irep_1_switch cfg mem IREP_TT_INT64 p st =
     (if MRBC_INT64 cfg then
        Return (MRBC_TT_FIXNUM (sint (push_bit 32 (ucast (bin_to_uint32 mem p) :: 64 word)
                                        OR ucast (bin_to_uint32 mem (p + 4)))), p + 8) st
      else Return (Uninitialised, p + 8) (mrbc_raise 204 st))"
  by (simp add: load_irep_1_switch_def Let_def IREP_TT_STR_def IREP_TT_SSTR_def
      IREP_TT_INT32_def IREP_TT_INT64_def IREP_TT_FLOAT_def)

lemma cat_bits:
  "uint (push_bit 32 (ucast (hi :: 32 word) :: 64 word) OR ucast (lo :: 32 word))
     = concat_bit 32 (uint lo) (uint hi)"
  by (rule bit_eqI) (auto simp add: bit_simps bit_uint_iff dest: bit_imp_le_length)

lemma high_then_low:
  "uint (push_bit 32 (ucast (hi :: 32 word) :: 64 word) OR ucast (lo :: 32 word))
     = uint hi * 2 ^ 32 + uint lo"
proof -
  have low: "take_bit 32 (uint lo) = uint lo"
    using take_bit_int_eq_self_iff [of 32 "uint lo"] uint_lt2p [of lo] by simp
  have "uint (push_bit 32 (ucast hi :: 64 word) OR ucast lo) = concat_bit 32 (uint lo) (uint hi)"
    by (rule cat_bits)
  also have "\<dots> = take_bit 32 (uint lo) + push_bit 32 (uint hi)"
    by (rule concat_bit_eq)
  also have "\<dots> = uint hi * 2 ^ 32 + uint lo"
    using low by (simp add: push_bit_eq_mult)
  finally show ?thesis .
qed

lemma int64_on_wide_target:
  "mrbc_load_mrb 2 int64_build (memory_of input_int64) (start_state [True, True, True]) 0
     = Some (Return 0
         \<lparr>vm_mrb = 0, vm_irep = Some (Irep 1 2 0 0 0 46 1 [MRBC_TT_FIXNUM 4294967298] 57 []),
            heap = [], console = []\<rparr>)"
  by code_simp

text \<open>
  Claim C7 (the code departs from it). Without \<^verbatim>\<open>MRBC_INT64\<close> the branch of the
  64-bit integer moves the cursor by 8 and calls \<^verbatim>\<open>mrbc_raise\<close>, but it does not
  return: the load goes on and returns 0, with an object in the pool that was never
  written and one diagnostic line. (The symbol table is found at 57, that is 8 bytes
  after the entry's data began at 49.)
\<close>

theorem int64_on_narrow_target_does_not_fail:
  "mrbc_load_mrb 2 debug_build (memory_of input_int64) (start_state [True, True, True]) 0
     = Some (Return 0
         \<lparr>vm_mrb = 0, vm_irep = Some (Irep 1 2 0 0 0 46 1 [Uninitialised] 57 []), heap = [],
            console = [204]\<rparr>)"
  by code_simp

end
